theory Spec2Isabelle
  imports Main "HOL-Library.Sublist"
begin

section \<open>Python values and errors\<close>

text \<open>
  The program is \<^verbatim>\<open>src/main.py\<close>: a validator \<^verbatim>\<open>_validate_matrix\<close>, the
  multiplier \<^verbatim>\<open>multiply_matrices\<close> and a small command line front end. Names keep the
  source's spelling, without the leading underscore that an Isabelle name cannot carry.

  A Python \<^verbatim>\<open>float\<close> is an IEEE-754 binary64 number. \<open>FFin s m e\<close> stands for
  the number \<open>m * 2 ^ e\<close> with the sign \<open>s\<close> (\<open>True\<close> is negative), and every result of
  an operation is brought into the canonical form of the format by \<open>round_fin\<close> below.
\<close>

datatype pyfloat = FNaN | FInf bool | FFin bool nat int

text \<open>
  The values that can reach the validator: what \<^verbatim>\<open>json.loads\<close> produces, and tuples and
  byte strings from a library caller. Of these, \<open>PList\<close>, \<open>PTuple\<close>, \<open>PStr\<close> and
  \<open>PBytes\<close> are instances of \<^verbatim>\<open>Sequence\<close>.
\<close>

datatype pyval =
    PNone
  | PBool bool
  | PInt int
  | PFloat pyfloat
  | PStr string
  | PBytes string
  | PList "pyval list"
  | PTuple "pyval list"
  | PDict "(string \<times> pyval) list"

text \<open>\<^verbatim>\<open>Number = Union[int, float]\<close>\<close>

datatype number = IntNum int | FloatNum pyfloat

datatype pyerror =
    TypeError string
  | ValueError string
  | OverflowError string
  | IndexError string
  | SystemExit string

fun is_TypeError :: "pyerror + 'a \<Rightarrow> bool" where
  "is_TypeError (Inl (TypeError _)) = True"
| "is_TypeError _ = False"

fun is_ValueError :: "pyerror + 'a \<Rightarrow> bool" where
  "is_ValueError (Inl (ValueError _)) = True"
| "is_ValueError _ = False"

fun message :: "pyerror \<Rightarrow> string" where
  "message (TypeError s) = s"
| "message (ValueError s) = s"
| "message (OverflowError s) = s"
| "message (IndexError s) = s"
| "message (SystemExit s) = s"

text \<open>\<^verbatim>\<open>isinstance(v, Sequence)\<close> and \<^verbatim>\<open>isinstance(v, (bytes, str))\<close>\<close>

fun is_Sequence :: "pyval \<Rightarrow> bool" where
  "is_Sequence (PList _) = True"
| "is_Sequence (PTuple _) = True"
| "is_Sequence (PStr _) = True"
| "is_Sequence (PBytes _) = True"
| "is_Sequence _ = False"

fun is_bytes_or_str :: "pyval \<Rightarrow> bool" where
  "is_bytes_or_str (PStr _) = True"
| "is_bytes_or_str (PBytes _) = True"
| "is_bytes_or_str _ = False"

text \<open>The elements a \<^verbatim>\<open>for\<close> loop over a list or a tuple visits.\<close>

fun items :: "pyval \<Rightarrow> pyval list" where
  "items (PList xs) = xs"
| "items (PTuple xs) = xs"
| "items _ = []"

text \<open>\<^verbatim>\<open>str(n)\<close> for a length, as the f-strings of the shape error render it.\<close>

definition digit_char :: "nat \<Rightarrow> char" where
  "digit_char d = ''0123456789'' ! (d mod 10)"

fun str_nat :: "nat \<Rightarrow> string" where
  "str_nat n = (if n < 10 then [digit_char n] else str_nat (n div 10) @ [digit_char n])"

declare str_nat.simps [simp del]

section \<open>The validator\<close>

text \<open>
  \<^verbatim>\<open>
  def _ensure_number(value, name):
      if isinstance(value, (int, float)) and not isinstance(value, bool):
          return value
      raise TypeError(f"{name} must contain only numbers (int or float)")
  \<close>
\<close>

fun ensure_number :: "pyval \<Rightarrow> string \<Rightarrow> pyerror + number" where
  "ensure_number (PInt z) name = Inr (IntNum z)"
| "ensure_number (PFloat f) name = Inr (FloatNum f)"
| "ensure_number v name = Inl (TypeError (name @ '' must contain only numbers (int or float)''))"

text \<open>The list comprehension \<^verbatim>\<open>[_ensure_number(x, name) for x in row]\<close>: the first
  element that is not a number raises.\<close>

fun ensure_numbers :: "pyval list \<Rightarrow> string \<Rightarrow> pyerror + number list" where
  "ensure_numbers [] name = Inr []"
| "ensure_numbers (x # xs) name =
     (case ensure_number x name of
        Inl e \<Rightarrow> Inl e
      | Inr n \<Rightarrow> (case ensure_numbers xs name of Inl e \<Rightarrow> Inl e | Inr ns \<Rightarrow> Inr (n # ns)))"

text \<open>The loop \<^verbatim>\<open>for row in matrix\<close> of the validator, with \<open>rows\<close> as its state.\<close>

fun validate_rows :: "pyval list \<Rightarrow> string \<Rightarrow> number list list \<Rightarrow> pyerror + number list list" where
  "validate_rows [] name rows = Inr rows"
| "validate_rows (row # rest) name rows =
     (if \<not> is_Sequence row \<or> is_bytes_or_str row
      then Inl (TypeError (name @ '' must be a sequence of sequences of numbers''))
      else (case ensure_numbers (items row) name of
              Inl e \<Rightarrow> Inl e
            | Inr ns \<Rightarrow> validate_rows rest name (rows @ [ns])))"

definition validate_matrix :: "pyval \<Rightarrow> string \<Rightarrow> pyerror + number list list" where
  "validate_matrix matrix name =
     (if \<not> is_Sequence matrix \<or> is_bytes_or_str matrix
      then Inl (TypeError (name @ '' must be a sequence of sequences of numbers''))
      else (case validate_rows (items matrix) name [] of
              Inl e \<Rightarrow> Inl e
            | Inr rows \<Rightarrow>
                if length rows = 0
                then Inl (ValueError (name @ '' must have at least one row''))
                else let row_lengths = set (map length rows) in
                  if 0 \<in> row_lengths
                  then Inl (ValueError (name @ '' rows must be non-empty''))
                  else if card row_lengths \<noteq> 1
                  then Inl (ValueError (name @ '' must be rectangular (all rows same length)''))
                  else Inr rows))"

section \<open>Numbers\<close>

text \<open>Errors propagate as exceptions do: the first one ends the computation.\<close>

definition bind :: "pyerror + 'a \<Rightarrow> ('a \<Rightarrow> pyerror + 'b) \<Rightarrow> pyerror + 'b" where
  "bind r f = (case r of Inl e \<Rightarrow> Inl e | Inr x \<Rightarrow> f x)"

text \<open>\<^verbatim>\<open>xs[i]\<close> for an index taken from a \<^verbatim>\<open>range\<close>.\<close>

definition py_index :: "'a list \<Rightarrow> nat \<Rightarrow> pyerror + 'a" where
  "py_index xs i = (if i < length xs then Inr (xs ! i) else Inl (IndexError ''list index out of range''))"

text \<open>\<^verbatim>\<open>int.bit_length\<close>\<close>

fun bit_length :: "nat \<Rightarrow> nat" where
  "bit_length n = (if n = 0 then 0 else Suc (bit_length (n div 2)))"

declare bit_length.simps [simp del]

text \<open>
  Rounding to binary64, to nearest with ties to even: the exact value is \<open>M * 2 ^ E\<close> with
  sign \<open>s\<close>. The result has a mantissa below \<open>2 ^ 53\<close> and an exponent from \<open>-1074\<close> to
  \<open>971\<close>; what lies beyond is an infinity.
\<close>

definition round_fin :: "bool \<Rightarrow> nat \<Rightarrow> int \<Rightarrow> pyfloat" where
  "round_fin s M E =
     (if M = 0 then FFin s 0 (- 1074)
      else
        let e = max (E + int (bit_length M) - 53) (- 1074) in
        if e \<le> E then (if 971 < e then FInf s else FFin s (M * 2 ^ nat (E - e)) e)
        else
          let sh = nat (e - E);
              q = M div 2 ^ sh;
              r = M mod 2 ^ sh;
              half = 2 ^ (sh - 1);
              q' = (if half < r \<or> (r = half \<and> odd q) then q + 1 else q);
              e' = (if q' = 2 ^ 53 then e + 1 else e);
              m' = (if q' = 2 ^ 53 then 2 ^ 52 else q')
          in if 971 < e' then FInf s else FFin s m' e')"

definition signed :: "bool \<Rightarrow> nat \<Rightarrow> int" where
  "signed s m = (if s then - int m else int m)"

fun fadd :: "pyfloat \<Rightarrow> pyfloat \<Rightarrow> pyfloat" where
  "fadd FNaN y = FNaN"
| "fadd x FNaN = FNaN"
| "fadd (FInf s) (FInf t) = (if s = t then FInf s else FNaN)"
| "fadd (FInf s) (FFin t n f) = FInf s"
| "fadd (FFin s m e) (FInf t) = FInf t"
| "fadd (FFin s m e) (FFin t n f) =
     (let e0 = min e f;
          v = signed s m * 2 ^ nat (e - e0) + signed t n * 2 ^ nat (f - e0)
      in if v = 0 then FFin (s \<and> t) 0 (- 1074) else round_fin (v < 0) (nat \<bar>v\<bar>) e0)"

fun fmul :: "pyfloat \<Rightarrow> pyfloat \<Rightarrow> pyfloat" where
  "fmul FNaN y = FNaN"
| "fmul x FNaN = FNaN"
| "fmul (FInf s) (FInf t) = FInf (s \<noteq> t)"
| "fmul (FInf s) (FFin t n f) = (if n = 0 then FNaN else FInf (s \<noteq> t))"
| "fmul (FFin s m e) (FInf t) = (if m = 0 then FNaN else FInf (s \<noteq> t))"
| "fmul (FFin s m e) (FFin t n f) = round_fin (s \<noteq> t) (m * n) (e + f)"

text \<open>\<^verbatim>\<open>float(z)\<close> for an \<^verbatim>\<open>int\<close>, as mixed arithmetic applies it.\<close>

definition float_of_int :: "int \<Rightarrow> pyerror + pyfloat" where
  "float_of_int z =
     (case round_fin (z < 0) (nat \<bar>z\<bar>) 0 of
        FInf s \<Rightarrow> Inl (OverflowError ''int too large to convert to float'')
      | f \<Rightarrow> Inr f)"

fun py_add :: "number \<Rightarrow> number \<Rightarrow> pyerror + number" where
  "py_add (IntNum x) (IntNum y) = Inr (IntNum (x + y))"
| "py_add (IntNum x) (FloatNum g) = bind (float_of_int x) (\<lambda>f. Inr (FloatNum (fadd f g)))"
| "py_add (FloatNum f) (IntNum y) = bind (float_of_int y) (\<lambda>g. Inr (FloatNum (fadd f g)))"
| "py_add (FloatNum f) (FloatNum g) = Inr (FloatNum (fadd f g))"

fun py_mul :: "number \<Rightarrow> number \<Rightarrow> pyerror + number" where
  "py_mul (IntNum x) (IntNum y) = Inr (IntNum (x * y))"
| "py_mul (IntNum x) (FloatNum g) = bind (float_of_int x) (\<lambda>f. Inr (FloatNum (fmul f g)))"
| "py_mul (FloatNum f) (IntNum y) = bind (float_of_int y) (\<lambda>g. Inr (FloatNum (fmul f g)))"
| "py_mul (FloatNum f) (FloatNum g) = Inr (FloatNum (fmul f g))"

text \<open>\<^verbatim>\<open>x == 0\<close>: both float zeros are equal to \<open>0\<close>, a NaN is not.\<close>

fun eq_zero :: "number \<Rightarrow> bool" where
  "eq_zero (IntNum z) = (z = 0)"
| "eq_zero (FloatNum (FFin s m e)) = (m = 0)"
| "eq_zero (FloatNum f) = False"

section \<open>The multiplier\<close>

text \<open>
  \<^verbatim>\<open>
  for j in range(b_cols):
      row_i[j] += aik * b_k[j]
  \<close>
\<close>

fun loop_j :: "number \<Rightarrow> number list \<Rightarrow> number list \<Rightarrow> nat list \<Rightarrow> pyerror + number list" where
  "loop_j aik b_k row_i [] = Inr row_i"
| "loop_j aik b_k row_i (j # js) =
     bind (py_index row_i j) (\<lambda>r.
     bind (py_index b_k j) (\<lambda>bkj.
     bind (py_mul aik bkj) (\<lambda>p.
     bind (py_add r p) (\<lambda>s.
       loop_j aik b_k (row_i[j := s]) js))))"

text \<open>
  \<^verbatim>\<open>
  for k in range(a_cols):
      aik = a[i][k]
      if aik == 0:
          continue
      row_i = result[i]
      b_k = b[k]
      for j in range(b_cols): ...
  \<close>
  The row \<open>row_i\<close> is the row of \<open>result\<close> itself, so that the inner loop's updates are
  updates of \<open>result\<close>.
\<close>

fun loop_k :: "number list list \<Rightarrow> number list list \<Rightarrow> nat \<Rightarrow> nat \<Rightarrow> number list list \<Rightarrow> nat list
    \<Rightarrow> pyerror + number list list" where
  "loop_k a b b_cols i result [] = Inr result"
| "loop_k a b b_cols i result (k # ks) =
     bind (py_index a i) (\<lambda>a_i.
     bind (py_index a_i k) (\<lambda>aik.
       if eq_zero aik then loop_k a b b_cols i result ks
       else
         bind (py_index result i) (\<lambda>row_i.
         bind (py_index b k) (\<lambda>b_k.
         bind (loop_j aik b_k row_i [0..<b_cols]) (\<lambda>row_i'.
           loop_k a b b_cols i (result[i := row_i']) ks)))))"

fun loop_i :: "number list list \<Rightarrow> number list list \<Rightarrow> nat \<Rightarrow> nat \<Rightarrow> number list list \<Rightarrow> nat list
    \<Rightarrow> pyerror + number list list" where
  "loop_i a b a_cols b_cols result [] = Inr result"
| "loop_i a b a_cols b_cols result (i # is) =
     bind (loop_k a b b_cols i result [0..<a_cols]) (\<lambda>result'.
       loop_i a b a_cols b_cols result' is)"

definition shape_message :: "nat \<Rightarrow> nat \<Rightarrow> nat \<Rightarrow> nat \<Rightarrow> string" where
  "shape_message a_rows a_cols b_rows b_cols =
     ''Incompatible shapes for multiplication: left is '' @ str_nat a_rows @ ''x'' @ str_nat a_cols
       @ '', right is '' @ str_nat b_rows @ ''x'' @ str_nat b_cols"

definition multiply_matrices :: "pyval \<Rightarrow> pyval \<Rightarrow> pyerror + number list list" where
  "multiply_matrices left right =
     bind (validate_matrix left ''left'') (\<lambda>a.
     bind (validate_matrix right ''right'') (\<lambda>b.
       let a_rows = length a in
       bind (py_index a 0) (\<lambda>a_0.
       let a_cols = length a_0;
           b_rows = length b in
       bind (py_index b 0) (\<lambda>b_0.
       let b_cols = length b_0 in
       if a_cols \<noteq> b_rows
       then Inl (ValueError (shape_message a_rows a_cols b_rows b_cols))
       else
         let result = replicate a_rows (replicate b_cols (IntNum 0)) in
         loop_i a b a_cols b_cols result [0..<a_rows]))))"

text \<open>
  The reference the specification compares with: the same three loops without the test
  \<^verbatim>\<open>if aik == 0: continue\<close>, every product formed and added.
\<close>

fun loop_k_naive :: "number list list \<Rightarrow> number list list \<Rightarrow> nat \<Rightarrow> nat \<Rightarrow> number list list
    \<Rightarrow> nat list \<Rightarrow> pyerror + number list list" where
  "loop_k_naive a b b_cols i result [] = Inr result"
| "loop_k_naive a b b_cols i result (k # ks) =
     bind (py_index a i) (\<lambda>a_i.
     bind (py_index a_i k) (\<lambda>aik.
     bind (py_index result i) (\<lambda>row_i.
     bind (py_index b k) (\<lambda>b_k.
     bind (loop_j aik b_k row_i [0..<b_cols]) (\<lambda>row_i'.
       loop_k_naive a b b_cols i (result[i := row_i']) ks)))))"

fun loop_i_naive :: "number list list \<Rightarrow> number list list \<Rightarrow> nat \<Rightarrow> nat \<Rightarrow> number list list
    \<Rightarrow> nat list \<Rightarrow> pyerror + number list list" where
  "loop_i_naive a b a_cols b_cols result [] = Inr result"
| "loop_i_naive a b a_cols b_cols result (i # is) =
     bind (loop_k_naive a b b_cols i result [0..<a_cols]) (\<lambda>result'.
       loop_i_naive a b a_cols b_cols result' is)"

definition multiply_naive :: "pyval \<Rightarrow> pyval \<Rightarrow> pyerror + number list list" where
  "multiply_naive left right =
     bind (validate_matrix left ''left'') (\<lambda>a.
     bind (validate_matrix right ''right'') (\<lambda>b.
       let a_rows = length a in
       bind (py_index a 0) (\<lambda>a_0.
       let a_cols = length a_0;
           b_rows = length b in
       bind (py_index b 0) (\<lambda>b_0.
       let b_cols = length b_0 in
       if a_cols \<noteq> b_rows
       then Inl (ValueError (shape_message a_rows a_cols b_rows b_cols))
       else
         let result = replicate a_rows (replicate b_cols (IntNum 0)) in
         loop_i_naive a b a_cols b_cols result [0..<a_rows]))))"

section \<open>The command line\<close>

text \<open>
  \<^verbatim>\<open>f"{val:g}"\<close>: the value as a float, rounded to six significant decimal digits (ties to
  even on the exact binary value), in fixed notation when the decimal exponent is from
  \<open>-4\<close> to \<open>5\<close> and in exponent notation otherwise, trailing zeros removed.
\<close>

function dec_up :: "nat \<Rightarrow> nat \<Rightarrow> nat" where
  "dec_up n d = (if 0 < d \<and> 10 * d \<le> n then Suc (dec_up n (10 * d)) else 0)"
  by pat_completeness auto
termination
  by (relation "measure (\<lambda>(n, d). n - d)") auto

declare dec_up.simps [simp del]

function dec_down :: "nat \<Rightarrow> nat \<Rightarrow> nat" where
  "dec_down n d = (if 0 < n \<and> n < d then Suc (dec_down (10 * n) d) else 0)"
  by pat_completeness auto
termination
  by (relation "measure (\<lambda>(n, d). d - n)") auto

declare dec_down.simps [simp del]

text \<open>The decimal exponent of the positive fraction \<open>n / d\<close>: the \<open>X\<close> with
  \<open>10 ^ X \<le> n / d < 10 ^ (X + 1)\<close>.\<close>

definition dec_exp :: "nat \<Rightarrow> nat \<Rightarrow> int" where
  "dec_exp n d = (if d \<le> n then int (dec_up n d) else - int (dec_down n d))"

definition strip_zeros :: "string \<Rightarrow> string" where
  "strip_zeros ds = rev (dropWhile (\<lambda>c. c = CHR ''0'') (rev ds))"

definition with_point :: "string \<Rightarrow> string \<Rightarrow> string" where
  "with_point whole frac = (if strip_zeros frac = [] then whole else whole @ ''.'' @ strip_zeros frac)"

definition g_fixed :: "string \<Rightarrow> int \<Rightarrow> string" where
  "g_fixed ds X =
     (if 0 \<le> X then with_point (take (nat X + 1) ds) (drop (nat X + 1) ds)
      else with_point ''0'' (replicate (nat (- X - 1)) CHR ''0'' @ ds))"

definition g_exponent :: "string \<Rightarrow> int \<Rightarrow> string" where
  "g_exponent ds X =
     with_point (take 1 ds) (drop 1 ds) @ ''e'' @ (if X < 0 then ''-'' else ''+'')
       @ (if \<bar>X\<bar> < 10 then ''0'' else []) @ str_nat (nat \<bar>X\<bar>)"

definition g_digits :: "nat \<Rightarrow> int \<Rightarrow> string" where
  "g_digits m e =
     (let num = (if 0 \<le> e then m * 2 ^ nat e else m);
          den = (if 0 \<le> e then 1 else 2 ^ nat (- e));
          X = dec_exp num den;
          N = (if 5 \<le> X then num else num * 10 ^ nat (5 - X));
          D = (if 5 \<le> X then den * 10 ^ nat (X - 5) else den);
          q = N div D;
          r = N mod D;
          n = (if D < 2 * r \<or> (2 * r = D \<and> odd q) then q + 1 else q);
          X' = (if n = 10 ^ 6 then X + 1 else X);
          n' = (if n = 10 ^ 6 then 10 ^ 5 else n)
      in if - 4 \<le> X' \<and> X' < 6 then g_fixed (str_nat n') X' else g_exponent (str_nat n') X')"

fun float_g :: "pyfloat \<Rightarrow> string" where
  "float_g FNaN = ''nan''"
| "float_g (FInf s) = (if s then ''-inf'' else ''inf'')"
| "float_g (FFin s m e) = (if s then ''-'' else []) @ (if m = 0 then ''0'' else g_digits m e)"

fun format_g :: "number \<Rightarrow> pyerror + string" where
  "format_g (IntNum z) = bind (float_of_int z) (\<lambda>f. Inr (float_g f))"
| "format_g (FloatNum f) = Inr (float_g f)"

fun format_row :: "number list \<Rightarrow> pyerror + string list" where
  "format_row [] = Inr []"
| "format_row (val # vals) =
     bind (format_g val) (\<lambda>s. bind (format_row vals) (\<lambda>ss. Inr (s # ss)))"

text \<open>\<^verbatim>\<open>sep.join(parts)\<close>\<close>

fun join :: "string \<Rightarrow> string list \<Rightarrow> string" where
  "join sep [] = []"
| "join sep [s] = s"
| "join sep (s # t # ss) = s @ sep @ join sep (t # ss)"

text \<open>
  Standard output is the list of the lines printed so far. \<^verbatim>\<open>_print_matrix\<close> prints one
  line for each row; a value that cannot be formatted raises after the earlier rows are out.
\<close>

fun print_matrix :: "number list list \<Rightarrow> string list \<Rightarrow> string list \<times> pyerror option" where
  "print_matrix [] out = (out, None)"
| "print_matrix (row # rows) out =
     (case format_row row of
        Inl e \<Rightarrow> (out, Some e)
      | Inr ss \<Rightarrow> print_matrix rows (out @ [join '' '' ss]))"

text \<open>
  \<^verbatim>\<open>json.loads\<close> is the standard library's; it is a parameter here, \<open>Inl\<close> carrying the text
  of a \<^verbatim>\<open>JSONDecodeError\<close>.
\<close>

definition load_matrix_from_json_arg ::
    "(string \<Rightarrow> string + pyval) \<Rightarrow> string \<Rightarrow> string \<Rightarrow> pyerror + number list list" where
  "load_matrix_from_json_arg json_loads arg name =
     (case json_loads arg of
        Inl exc \<Rightarrow> Inl (SystemExit (''Failed to parse '' @ name @ '' as JSON: '' @ exc))
      | Inr v \<Rightarrow>
          (case validate_matrix v name of
             Inl (TypeError msg) \<Rightarrow> Inl (SystemExit msg)
           | Inl (ValueError msg) \<Rightarrow> Inl (SystemExit msg)
           | Inl e \<Rightarrow> Inl e
           | Inr rows \<Rightarrow> Inr rows))"

text \<open>A validated matrix handed on as an argument is a list of lists again.\<close>

fun as_pyval :: "number \<Rightarrow> pyval" where
  "as_pyval (IntNum z) = PInt z"
| "as_pyval (FloatNum f) = PFloat f"

definition as_matrix :: "number list list \<Rightarrow> pyval" where
  "as_matrix rows = PList (map (\<lambda>row. PList (map as_pyval row)) rows)"

definition demo_a :: pyval where
  "demo_a = PList [PList [PInt 1, PInt 2, PInt 3], PList [PInt 4, PInt 5, PInt 6]]"

definition demo_b :: pyval where
  "demo_b = PList [PList [PInt 7, PInt 8], PList [PInt 9, PInt 10], PList [PInt 11, PInt 12]]"

definition usage :: "string list" where
  "usage =
     [''Usage:'',
      ''  python main.py                          # demo'',
      ''  python main.py '' @ [CHR 0x27] @ ''<A_json>'' @ [CHR 0x27] @ '' '' @ [CHR 0x27] @ ''<B_json>''
        @ [CHR 0x27] @ ''    # multiply A'' @ [CHR 0xC3, CHR 0x97] @ ''B'']"

text \<open>The product is printed, and \<open>0\<close> returned, unless something raised on the way.\<close>

definition multiply_and_print :: "pyval \<Rightarrow> pyval \<Rightarrow> string list \<times> (pyerror + int)" where
  "multiply_and_print a b =
     (case multiply_matrices a b of
        Inl e \<Rightarrow> ([], Inl e)
      | Inr c \<Rightarrow> (case print_matrix c [] of (out, Some e) \<Rightarrow> (out, Inl e) | (out, None) \<Rightarrow> (out, Inr 0)))"

text \<open>\<^verbatim>\<open>main(argv)\<close>: the lines printed, and the exit code returned or the exception raised.\<close>

definition main :: "(string \<Rightarrow> string + pyval) \<Rightarrow> string list \<Rightarrow> string list \<times> (pyerror + int)" where
  "main json_loads argv =
     (if length argv = 1 then multiply_and_print demo_a demo_b
      else if length argv = 3 then
        (case load_matrix_from_json_arg json_loads (argv ! 1) ''left'' of
           Inl e \<Rightarrow> ([], Inl e)
         | Inr a \<Rightarrow>
             (case load_matrix_from_json_arg json_loads (argv ! 2) ''right'' of
                Inl e \<Rightarrow> ([], Inl e)
              | Inr b \<Rightarrow> multiply_and_print (as_matrix a) (as_matrix b)))
      else (usage, Inr 2))"

section \<open>Vocabulary of the properties\<close>

text \<open>What the validator accepts as the matrix itself and as a row: a sequence that is
  neither a \<^verbatim>\<open>str\<close> nor a \<^verbatim>\<open>bytes\<close>.\<close>

definition non_string_sequence :: "pyval \<Rightarrow> bool" where
  "non_string_sequence v \<longleftrightarrow> is_Sequence v \<and> \<not> is_bytes_or_str v"

text \<open>\<^verbatim>\<open>isinstance(v, (int, float)) and not isinstance(v, bool)\<close>\<close>

fun is_number :: "pyval \<Rightarrow> bool" where
  "is_number (PInt z) = True"
| "is_number (PFloat f) = True"
| "is_number v = False"

text \<open>Numbers that are \<^verbatim>\<open>int\<close>s, and their values.\<close>

fun is_int :: "number \<Rightarrow> bool" where
  "is_int (IntNum z) = True"
| "is_int (FloatNum f) = False"

fun int_of :: "number \<Rightarrow> int" where
  "int_of (IntNum z) = z"
| "int_of (FloatNum f) = 0"

text \<open>A matrix of integers as the caller writes it: a list of lists of \<^verbatim>\<open>int\<close>s.\<close>

definition int_matrix :: "int list list \<Rightarrow> pyval" where
  "int_matrix A = PList (map (\<lambda>row. PList (map PInt row)) A)"

text \<open>
  What the two inner loops do to one row of the result, for the proofs: \<open>row_k True\<close> is the
  \<open>k\<close> loop of \<open>loop_k\<close> on the row it updates, \<open>row_k False\<close> that of \<open>loop_k_naive\<close>; and
  \<open>rows_i\<close> is the \<open>i\<close> loop over such row computations.
\<close>

fun row_k :: "bool \<Rightarrow> number list \<Rightarrow> number list list \<Rightarrow> nat \<Rightarrow> number list \<Rightarrow> nat list
    \<Rightarrow> pyerror + number list" where
  "row_k skip a_i b b_cols row_i [] = Inr row_i"
| "row_k skip a_i b b_cols row_i (k # ks) =
     bind (py_index a_i k) (\<lambda>aik.
       if skip \<and> eq_zero aik then row_k skip a_i b b_cols row_i ks
       else
         bind (py_index b k) (\<lambda>b_k.
         bind (loop_j aik b_k row_i [0..<b_cols]) (\<lambda>row_i'.
           row_k skip a_i b b_cols row_i' ks)))"

fun rows_i :: "(nat \<Rightarrow> number list \<Rightarrow> pyerror + number list) \<Rightarrow> number list list \<Rightarrow> nat list
    \<Rightarrow> pyerror + number list list" where
  "rows_i rk result [] = Inr result"
| "rows_i rk result (i # is) = bind (rk i (result ! i)) (\<lambda>r. rows_i rk (result[i := r]) is)"

section \<open>Basic facts\<close>

lemma bind_Inl [simp]: "bind (Inl e) f = Inl e"
  by (simp add: bind_def)

lemma bind_Inr [simp]: "bind (Inr x) f = f x"
  by (simp add: bind_def)

lemma bind_eq_Inr: "bind r f = Inr y \<longleftrightarrow> (\<exists>x. r = Inr x \<and> f x = Inr y)"
  by (cases r) simp_all

lemma py_index_in [simp]: "i < length xs \<Longrightarrow> py_index xs i = Inr (xs ! i)"
  by (simp add: py_index_def)

lemma items_nonempty: "items v \<noteq> [] \<Longrightarrow> non_string_sequence v"
  by (cases v) (simp_all add: non_string_sequence_def)

subsection \<open>The validator's outcomes\<close>

lemma ensure_numbers_error:
  "ensure_numbers xs name = Inl e \<Longrightarrow> e = TypeError (name @ '' must contain only numbers (int or float)'')"
proof (induction xs arbitrary: e)
  case Nil
  then show ?case by simp
next
  case (Cons x xs)
  then show ?case
    by (cases x) (auto split: sum.splits)
qed

lemma ensure_numbers_bool:
  "PBool b \<in> set xs \<Longrightarrow> \<exists>e. ensure_numbers xs name = Inl e"
proof (induction xs)
  case Nil
  then show ?case by simp
next
  case (Cons x xs)
  then show ?case
    by (cases x) (auto split: sum.splits)
qed

lemma validate_rows_error:
  "validate_rows rs name acc = Inl e \<Longrightarrow>
     e = TypeError (name @ '' must be a sequence of sequences of numbers'') \<or>
     e = TypeError (name @ '' must contain only numbers (int or float)'')"
proof (induction rs arbitrary: acc)
  case Nil
  then show ?case by simp
next
  case (Cons r rs)
  then show ?case
    by (auto split: if_splits sum.splits dest: ensure_numbers_error)
qed

lemma validate_rows_bad_row:
  "r \<in> set rs \<Longrightarrow> ensure_numbers (items r) name = Inl e \<Longrightarrow> \<exists>e'. validate_rows rs name acc = Inl e'"
proof (induction rs arbitrary: acc)
  case Nil
  then show ?case by simp
next
  case (Cons x rs)
  then show ?case
    by (auto split: sum.splits)
qed

lemma validate_matrix_error:
  "validate_matrix m name = Inl e \<Longrightarrow> \<exists>s. e = TypeError (name @ s) \<or> e = ValueError (name @ s)"
  unfolding validate_matrix_def Let_def
  by (auto split: if_splits sum.splits dest: validate_rows_error)

lemma validate_matrix_shape:
  assumes "validate_matrix m name = Inr rows"
  shows "rows \<noteq> [] \<and> (\<exists>c>0. \<forall>r\<in>set rows. length r = c)"
proof -
  from assms have ne: "rows \<noteq> []" and nz: "0 \<notin> set (map length rows)"
    and c1: "card (set (map length rows)) = 1"
    unfolding validate_matrix_def Let_def
    by (auto split: if_splits sum.splits)
  from c1 obtain c where c: "set (map length rows) = {c}"
    by (auto simp: card_1_singleton_iff)
  with nz have "0 < c" by auto
  moreover from c have "\<forall>r\<in>set rows. length r = c" by auto
  ultimately show ?thesis using ne by blast
qed

section \<open>Properties of the validator\<close>

text \<open>
  C5. A top-level input that is a sequence the validator iterates (a list or a tuple, not a
  string) and has no rows is rejected with the \<^verbatim>\<open>ValueError\<close> whose message is the label
  followed by \<^verbatim>\<open>must have at least one row\<close>.
\<close>

theorem zero_rows_rejected:
  "non_string_sequence m \<Longrightarrow> items m = [] \<Longrightarrow>
   validate_matrix m name = Inl (ValueError (name @ '' must have at least one row''))"
  by (simp add: validate_matrix_def non_string_sequence_def)

theorem zero_rows_rejected_witness:
  "non_string_sequence (PList []) \<and> items (PList []) = [] \<and>
   validate_matrix (PList []) ''left'' = Inl (ValueError ''left must have at least one row'')"
  using zero_rows_rejected [of "PList []" "''left''"]
  by (simp add: non_string_sequence_def)

lemma multiply_left_error:
  "validate_matrix left ''left'' = Inl e \<Longrightarrow> multiply_matrices left right = Inl e"
  by (simp add: multiply_matrices_def)

lemma multiply_right_error:
  "validate_matrix left ''left'' = Inr a \<Longrightarrow> validate_matrix right ''right'' = Inl e \<Longrightarrow>
   multiply_matrices left right = Inl e"
  by (simp add: multiply_matrices_def)

lemma validate_matrix_bad_rows:
  assumes "non_string_sequence m" "validate_rows (items m) name [] = Inl e"
  shows "validate_matrix m name = Inl e \<and> is_TypeError (validate_matrix m name)"
  using assms validate_rows_error [OF assms(2)]
  by (auto simp: validate_matrix_def non_string_sequence_def)

lemma is_TypeError_validate:
  "is_TypeError (validate_matrix m ''left'') \<Longrightarrow> is_TypeError (multiply_matrices m right)"
  by (cases "validate_matrix m ''left''") (auto simp: multiply_matrices_def)

text \<open>
  C4. A matrix with a boolean among the elements of one of its rows is rejected by the
  validator with a \<^verbatim>\<open>TypeError\<close>, whatever the label; so \<^verbatim>\<open>multiply_matrices\<close> fails with a
  \<^verbatim>\<open>TypeError\<close> when that matrix is its left argument, and when it is its right argument
  and the left one is valid.
\<close>

theorem boolean_rejected:
  assumes "row \<in> set (items m)" and "PBool b \<in> set (items row)"
  shows "is_TypeError (validate_matrix m name) \<and>
         is_TypeError (multiply_matrices m other) \<and>
         (validate_matrix other ''left'' = Inr a \<longrightarrow> is_TypeError (multiply_matrices other m))"
proof -
  from assms(1) have seq: "non_string_sequence m"
    by (auto intro: items_nonempty)
  have bad: "\<exists>e. validate_rows (items m) name' [] = Inl e" for name'
    using ensure_numbers_bool [OF assms(2), of name'] validate_rows_bad_row [OF assms(1)]
    by blast
  have rej: "is_TypeError (validate_matrix m name')" for name'
    using bad [of name'] validate_matrix_bad_rows [OF seq] by blast
  have right: "is_TypeError (multiply_matrices other m)" if "validate_matrix other ''left'' = Inr a"
  proof -
    from rej [of "''right''"] obtain e where e: "validate_matrix m ''right'' = Inl e"
      by (cases "validate_matrix m ''right''") auto
    with rej [of "''right''"] multiply_right_error [OF that e] show ?thesis by simp
  qed
  from rej [of name] is_TypeError_validate [OF rej [of "''left''"]] right show ?thesis
    by blast
qed

theorem boolean_rejected_witness:
  "PList [PInt 1, PBool True] \<in> set (items (PList [PList [PInt 1, PBool True]])) \<and>
   PBool True \<in> set (items (PList [PInt 1, PBool True])) \<and>
   validate_matrix (PList [PList [PInt 2]]) ''left'' = Inr [[IntNum 2]] \<and>
   is_TypeError (validate_matrix (PList [PList [PInt 1, PBool True]]) ''right'') \<and>
   is_TypeError (multiply_matrices (PList [PList [PInt 1, PBool True]]) (PList [PList [PInt 2]])) \<and>
   is_TypeError (multiply_matrices (PList [PList [PInt 2]]) (PList [PList [PInt 1, PBool True]]))"
proof -
  have v: "validate_matrix (PList [PList [PInt 2]]) ''left'' = Inr [[IntNum 2]]"
    by (simp add: validate_matrix_def)
  show ?thesis
    using boolean_rejected [of "PList [PInt 1, PBool True]" "PList [PList [PInt 1, PBool True]]" True
        "''right''" "PList [PList [PInt 2]]" "[[IntNum 2]]"] v
    by simp
qed

text \<open>
  C9. When the left argument is invalid, \<^verbatim>\<open>multiply_matrices\<close> fails with exactly the error
  of validating the left argument, whatever the right argument is (so also when it is
  invalid too), and the message of that error begins with the label \<^verbatim>\<open>left\<close>.
\<close>

theorem left_validated_first:
  assumes "validate_matrix left ''left'' = Inl e"
  shows "multiply_matrices left right = Inl e \<and> prefix ''left'' (message e)"
proof -
  from validate_matrix_error [OF assms] obtain s
    where "e = TypeError (''left'' @ s) \<or> e = ValueError (''left'' @ s)" by blast
  then have "prefix ''left'' (message e)"
    by (auto simp del: append.simps)
  with multiply_left_error [OF assms] show ?thesis by simp
qed

theorem left_validated_first_witness:
  "validate_matrix (PList []) ''left'' = Inl (ValueError ''left must have at least one row'') \<and>
   validate_matrix (PInt 3) ''right'' = Inl (TypeError ''right must be a sequence of sequences of numbers'') \<and>
   multiply_matrices (PList []) (PInt 3) = Inl (ValueError ''left must have at least one row'') \<and>
   prefix ''left'' (message (ValueError ''left must have at least one row''))"
proof -
  have l: "validate_matrix (PList []) ''left'' = Inl (ValueError ''left must have at least one row'')"
    by (simp add: validate_matrix_def)
  have r: "validate_matrix (PInt 3) ''right'' = Inl (TypeError ''right must be a sequence of sequences of numbers'')"
    by (simp add: validate_matrix_def)
  from left_validated_first [OF l, of "PInt 3"] l r show ?thesis by simp
qed

section \<open>Rows that are not sequences\<close>

lemma validate_rows_bad_seq:
  "bad \<in> set rs \<Longrightarrow> \<not> non_string_sequence bad \<Longrightarrow> \<exists>e. validate_rows rs name acc = Inl e"
proof (induction rs arbitrary: acc)
  case Nil
  then show ?case by simp
next
  case (Cons x rs)
  then show ?case
    by (auto simp: non_string_sequence_def split: sum.splits)
qed

lemma ensure_numbers_ok:
  "\<forall>x\<in>set xs. is_number x \<Longrightarrow> \<exists>ns. ensure_numbers xs name = Inr ns"
proof (induction xs)
  case Nil
  then show ?case by simp
next
  case (Cons x xs)
  then obtain ns where "ensure_numbers xs name = Inr ns" by auto
  moreover from Cons.prems have "is_number x" by simp
  ultimately show ?case by (cases x) auto
qed

lemma validate_rows_good_prefix:
  "\<forall>r\<in>set good. non_string_sequence r \<and> (\<forall>x\<in>set (items r). is_number x) \<Longrightarrow>
   \<not> non_string_sequence bad \<Longrightarrow>
   validate_rows (good @ bad # rest) name acc =
     Inl (TypeError (name @ '' must be a sequence of sequences of numbers''))"
proof (induction good arbitrary: acc)
  case Nil
  then show ?case by (simp add: non_string_sequence_def)
next
  case (Cons r good)
  from Cons.prems have "\<forall>x\<in>set (items r). is_number x" and seq: "non_string_sequence r"
    by simp_all
  then obtain ns where "ensure_numbers (items r) name = Inr ns"
    using ensure_numbers_ok by blast
  with seq Cons show ?case
    by (simp add: non_string_sequence_def)
qed

text \<open>
  C6, as amended. When the top level is a list or a tuple and one of its elements is not a
  non-string sequence, the validator fails with a \<^verbatim>\<open>TypeError\<close>; when moreover every
  element before the first such one is a non-string sequence of numbers, the message is the
  label followed by \<^verbatim>\<open>must be a sequence of sequences of numbers\<close>.
\<close>

theorem bad_row_rejected:
  assumes "non_string_sequence m" and "items m = good @ bad # rest" and "\<not> non_string_sequence bad"
  shows "is_TypeError (validate_matrix m name) \<and>
         ((\<forall>r\<in>set good. non_string_sequence r \<and> (\<forall>x\<in>set (items r). is_number x)) \<longrightarrow>
          validate_matrix m name =
            Inl (TypeError (name @ '' must be a sequence of sequences of numbers'')))"
proof -
  from assms(2) have "bad \<in> set (items m)" by simp
  from validate_rows_bad_seq [OF this assms(3)] obtain e
    where "validate_rows (items m) name [] = Inl e" by blast
  from validate_matrix_bad_rows [OF assms(1) this] have 1: "is_TypeError (validate_matrix m name)"
    by (rule conjunct2)
  have 2: "validate_matrix m name = Inl (TypeError (name @ '' must be a sequence of sequences of numbers''))"
    if "\<forall>r\<in>set good. non_string_sequence r \<and> (\<forall>x\<in>set (items r). is_number x)"
    using validate_rows_good_prefix [OF that assms(3), of rest name "[]"] assms(1,2)
      validate_matrix_bad_rows [OF assms(1), of name]
    by simp
  from 1 2 show ?thesis by blast
qed

theorem bad_row_rejected_witness:
  "non_string_sequence (PList [PList [PInt 1], PStr ''ab'']) \<and>
   items (PList [PList [PInt 1], PStr ''ab'']) = [PList [PInt 1]] @ PStr ''ab'' # [] \<and>
   \<not> non_string_sequence (PStr ''ab'') \<and>
   non_string_sequence (PList [PInt 1]) \<and> is_number (PInt 1) \<and>
   is_TypeError (validate_matrix (PList [PList [PInt 1], PStr ''ab'']) ''left'') \<and>
   validate_matrix (PList [PList [PInt 1], PStr ''ab'']) ''left'' =
     Inl (TypeError ''left must be a sequence of sequences of numbers'')"
  using bad_row_rejected [of "PList [PList [PInt 1], PStr ''ab'']" "[PList [PInt 1]]" "PStr ''ab''" "[]" "''left''"]
  by (simp add: non_string_sequence_def)

text \<open>
  C6 as stated fails: a number in place of a row raises a \<^verbatim>\<open>TypeError\<close>, not the
  \<^verbatim>\<open>ValueError\<close> of the shape errors; and a row with a boolean before it raises first, with
  another message.
\<close>

theorem bad_row_counterexample:
  "\<not> is_ValueError (validate_matrix (PList [PInt 5]) ''left'') \<and>
   validate_matrix (PList [PInt 5]) ''left'' =
     Inl (TypeError ''left must be a sequence of sequences of numbers'') \<and>
   validate_matrix (PList [PList [PBool True], PInt 5]) ''left'' =
     Inl (TypeError ''left must contain only numbers (int or float)'')"
  by (simp add: validate_matrix_def)

section \<open>Incompatible shapes\<close>

lemma hd_validated:
  assumes "validate_matrix m name = Inr rows"
  shows "py_index rows 0 = Inr (hd rows) \<and> hd rows \<in> set rows"
proof -
  from validate_matrix_shape [OF assms] have "rows \<noteq> []" by simp
  then show ?thesis by (cases rows) simp_all
qed

text \<open>
  C3. When both arguments are valid, the left one of shape \<open>r1\<close> by \<open>c1\<close> and the right
  one of shape \<open>r2\<close> by \<open>c2\<close>, and \<open>c1\<close> differs from \<open>r2\<close>, \<^verbatim>\<open>multiply_matrices\<close> fails
  with the \<^verbatim>\<open>ValueError\<close> whose message states both shapes, as \<^verbatim>\<open>2x3\<close> and \<^verbatim>\<open>2x2\<close>.
\<close>

theorem shape_mismatch:
  assumes "validate_matrix left ''left'' = Inr a" and "validate_matrix right ''right'' = Inr b"
    and "length a = r1" and "\<forall>row\<in>set a. length row = c1"
    and "length b = r2" and "\<forall>row\<in>set b. length row = c2"
    and "c1 \<noteq> r2"
  shows "multiply_matrices left right =
    Inl (ValueError (''Incompatible shapes for multiplication: left is '' @ str_nat r1 @ ''x''
      @ str_nat c1 @ '', right is '' @ str_nat r2 @ ''x'' @ str_nat c2))"
proof -
  from hd_validated [OF assms(1)] assms(4) have a0: "py_index a 0 = Inr (hd a)" "length (hd a) = c1"
    by simp_all
  from hd_validated [OF assms(2)] assms(6) have b0: "py_index b 0 = Inr (hd b)" "length (hd b) = c2"
    by simp_all
  show ?thesis
    using assms(1,2,3,5,7) a0 b0
    by (simp add: multiply_matrices_def shape_message_def)
qed

lemma str_nat_digit: "n < 10 \<Longrightarrow> str_nat n = [digit_char n]"
  by (simp add: str_nat.simps)

theorem shape_mismatch_witness:
  "validate_matrix (PList [PList [PInt 1, PInt 2, PInt 3], PList [PInt 4, PInt 5, PInt 6]]) ''left''
     = Inr [[IntNum 1, IntNum 2, IntNum 3], [IntNum 4, IntNum 5, IntNum 6]] \<and>
   validate_matrix (PList [PList [PInt 1, PInt 2], PList [PInt 3, PInt 4]]) ''right''
     = Inr [[IntNum 1, IntNum 2], [IntNum 3, IntNum 4]] \<and>
   multiply_matrices (PList [PList [PInt 1, PInt 2, PInt 3], PList [PInt 4, PInt 5, PInt 6]])
     (PList [PList [PInt 1, PInt 2], PList [PInt 3, PInt 4]]) =
     Inl (ValueError ''Incompatible shapes for multiplication: left is 2x3, right is 2x2'')"
proof -
  have l: "validate_matrix (PList [PList [PInt 1, PInt 2, PInt 3], PList [PInt 4, PInt 5, PInt 6]]) ''left''
     = Inr [[IntNum 1, IntNum 2, IntNum 3], [IntNum 4, IntNum 5, IntNum 6]]"
    by (simp add: validate_matrix_def)
  have r: "validate_matrix (PList [PList [PInt 1, PInt 2], PList [PInt 3, PInt 4]]) ''right''
     = Inr [[IntNum 1, IntNum 2], [IntNum 3, IntNum 4]]"
    by (simp add: validate_matrix_def)
  from shape_mismatch [OF l r, of 2 3 2 2] l r show ?thesis
    by (simp add: str_nat_digit digit_char_def)
qed

section \<open>The demonstration run\<close>

lemma demo_valid_a:
  "validate_matrix demo_a name = Inr [[IntNum 1, IntNum 2, IntNum 3], [IntNum 4, IntNum 5, IntNum 6]]"
  by (simp add: validate_matrix_def demo_a_def)

lemma demo_valid_b:
  "validate_matrix demo_b name = Inr [[IntNum 7, IntNum 8], [IntNum 9, IntNum 10], [IntNum 11, IntNum 12]]"
  by (simp add: validate_matrix_def demo_b_def)

lemma upt_2: "[0..<2] = [0, 1]"
  by (simp add: upt_rec)

lemma upt_3: "[0..<3] = [0, 1, 2]"
  by (simp add: upt_rec)

lemma demo_product:
  "multiply_matrices demo_a demo_b = Inr [[IntNum 58, IntNum 64], [IntNum 139, IntNum 154]]"
  by (simp add: multiply_matrices_def demo_valid_a demo_valid_b upt_2 upt_3 py_index_def)

lemma format_g_58: "format_g (IntNum 58) = Inr ''58''"
proof -
  have bits: "bit_length 58 = 6"
    by (simp add: bit_length.simps)
  have float: "float_of_int 58 = Inr (FFin False 8162774324609024 (- 47))"
    by (simp add: float_of_int_def round_fin_def bits Let_def)
  have exponent: "dec_exp 8162774324609024 140737488355328 = 1"
    by (simp add: dec_exp_def dec_up.simps)
  have digits: "str_nat 580000 = ''580000''"
    by (simp add: str_nat.simps digit_char_def)
  have "g_digits 8162774324609024 (- 47) = ''58''"
    by (simp add: g_digits_def exponent digits Let_def g_fixed_def with_point_def strip_zeros_def)
  with float show ?thesis by simp
qed

lemma format_g_64: "format_g (IntNum 64) = Inr ''64''"
proof -
  have bits: "bit_length 64 = 7"
    by (simp add: bit_length.simps)
  have float: "float_of_int 64 = Inr (FFin False 4503599627370496 (- 46))"
    by (simp add: float_of_int_def round_fin_def bits Let_def)
  have exponent: "dec_exp 4503599627370496 70368744177664 = 1"
    by (simp add: dec_exp_def dec_up.simps)
  have digits: "str_nat 640000 = ''640000''"
    by (simp add: str_nat.simps digit_char_def)
  have "g_digits 4503599627370496 (- 46) = ''64''"
    by (simp add: g_digits_def exponent digits Let_def g_fixed_def with_point_def strip_zeros_def)
  with float show ?thesis by simp
qed

lemma format_g_139: "format_g (IntNum 139) = Inr ''139''"
proof -
  have bits: "bit_length 139 = 8"
    by (simp add: bit_length.simps)
  have float: "float_of_int 139 = Inr (FFin False 4890627720347648 (- 45))"
    by (simp add: float_of_int_def round_fin_def bits Let_def)
  have exponent: "dec_exp 4890627720347648 35184372088832 = 2"
    by (simp add: dec_exp_def dec_up.simps)
  have digits: "str_nat 139000 = ''139000''"
    by (simp add: str_nat.simps digit_char_def)
  have "g_digits 4890627720347648 (- 45) = ''139''"
    by (simp add: g_digits_def exponent digits Let_def g_fixed_def with_point_def strip_zeros_def)
  with float show ?thesis by simp
qed

lemma format_g_154: "format_g (IntNum 154) = Inr ''154''"
proof -
  have bits: "bit_length 154 = 8"
    by (simp add: bit_length.simps)
  have float: "float_of_int 154 = Inr (FFin False 5418393301680128 (- 45))"
    by (simp add: float_of_int_def round_fin_def bits Let_def)
  have exponent: "dec_exp 5418393301680128 35184372088832 = 2"
    by (simp add: dec_exp_def dec_up.simps)
  have digits: "str_nat 154000 = ''154000''"
    by (simp add: str_nat.simps digit_char_def)
  have "g_digits 5418393301680128 (- 45) = ''154''"
    by (simp add: g_digits_def exponent digits Let_def g_fixed_def with_point_def strip_zeros_def)
  with float show ?thesis by simp
qed

lemma demo_print:
  "print_matrix [[IntNum 58, IntNum 64], [IntNum 139, IntNum 154]] [] = ([''58 64'', ''139 154''], None)"
  by (simp add: format_g_58 format_g_64 format_g_139 format_g_154 del: format_g.simps)

text \<open>
  C7. With no argument after the program name, \<^verbatim>\<open>main\<close> multiplies the two demonstration
  matrices, whose product is \<open>[[58, 64], [139, 154]]\<close>, prints it as the lines \<^verbatim>\<open>58 64\<close> and
  \<^verbatim>\<open>139 154\<close>, and returns \<open>0\<close>.
\<close>

theorem demo_run:
  "length argv = 1 \<Longrightarrow>
   main json_loads argv = ([''58 64'', ''139 154''], Inr 0) \<and>
   multiply_matrices demo_a demo_b = Inr [[IntNum 58, IntNum 64], [IntNum 139, IntNum 154]] \<and>
   demo_a = PList [PList [PInt 1, PInt 2, PInt 3], PList [PInt 4, PInt 5, PInt 6]] \<and>
   demo_b = PList [PList [PInt 7, PInt 8], PList [PInt 9, PInt 10], PList [PInt 11, PInt 12]]"
  by (simp add: main_def multiply_and_print_def demo_product demo_print del: print_matrix.simps)
    (simp add: demo_a_def demo_b_def)

theorem demo_run_witness:
  "length [''main.py''] = 1 \<and>
   main (\<lambda>arg. Inl ''Expecting value'') [''main.py''] = ([''58 64'', ''139 154''], Inr 0) \<and>
   multiply_matrices demo_a demo_b = Inr [[IntNum 58, IntNum 64], [IntNum 139, IntNum 154]]"
  using demo_run [of "[''main.py'']" "\<lambda>arg. Inl ''Expecting value''"] by simp

section \<open>The loops, row by row\<close>

lemma bind_assoc: "bind (bind m f) g = bind m (\<lambda>x. bind (f x) g)"
  by (cases m) simp_all

lemma bind_cong_Inr: "(\<And>x. m = Inr x \<Longrightarrow> f x = g x) \<Longrightarrow> bind m f = bind m g"
  by (cases m) simp_all

lemma loop_k_row:
  "i < length a \<Longrightarrow> i < length result \<Longrightarrow>
   loop_k a b p i result ks = bind (row_k True (a ! i) b p (result ! i) ks) (\<lambda>r. Inr (result[i := r]))"
proof (induction ks arbitrary: result)
  case Nil
  then show ?case by simp
next
  case (Cons k ks)
  have step: "loop_k a b p i (result[i := r]) ks =
      bind (row_k True (a ! i) b p r ks) (\<lambda>r'. Inr (result[i := r']))" for r
    using Cons.IH [of "result[i := r]"] Cons.prems by simp
  show ?case
    using Cons.prems Cons.IH [of result]
    by (auto simp: bind_assoc step intro!: bind_cong_Inr)
qed

lemma loop_k_naive_row:
  "i < length a \<Longrightarrow> i < length result \<Longrightarrow>
   loop_k_naive a b p i result ks =
     bind (row_k False (a ! i) b p (result ! i) ks) (\<lambda>r. Inr (result[i := r]))"
proof (induction ks arbitrary: result)
  case Nil
  then show ?case by simp
next
  case (Cons k ks)
  have step: "loop_k_naive a b p i (result[i := r]) ks =
      bind (row_k False (a ! i) b p r ks) (\<lambda>r'. Inr (result[i := r']))" for r
    using Cons.IH [of "result[i := r]"] Cons.prems by simp
  show ?case
    using Cons.prems
    by (auto simp: bind_assoc step intro!: bind_cong_Inr)
qed

lemma loop_i_rows:
  "\<forall>i\<in>set is. i < length a \<and> i < length result \<Longrightarrow>
   loop_i a b n p result is = rows_i (\<lambda>i row. row_k True (a ! i) b p row [0..<n]) result is"
proof (induction "is" arbitrary: result)
  case Nil
  then show ?case by simp
next
  case (Cons i "is")
  have step: "loop_i a b n p (result[i := r]) is =
      rows_i (\<lambda>i row. row_k True (a ! i) b p row [0..<n]) (result[i := r]) is" for r
    using Cons.IH [of "result[i := r]"] Cons.prems by simp
  show ?case
    using Cons.prems by (simp add: loop_k_row bind_assoc step)
qed

lemma loop_i_naive_rows:
  "\<forall>i\<in>set is. i < length a \<and> i < length result \<Longrightarrow>
   loop_i_naive a b n p result is = rows_i (\<lambda>i row. row_k False (a ! i) b p row [0..<n]) result is"
proof (induction "is" arbitrary: result)
  case Nil
  then show ?case by simp
next
  case (Cons i "is")
  have step: "loop_i_naive a b n p (result[i := r]) is =
      rows_i (\<lambda>i row. row_k False (a ! i) b p row [0..<n]) (result[i := r]) is" for r
    using Cons.IH [of "result[i := r]"] Cons.prems by simp
  show ?case
    using Cons.prems by (simp add: loop_k_naive_row bind_assoc step)
qed

lemma rows_i_cong:
  "(\<And>i row. i \<in> set is \<Longrightarrow> rk i row = rk' i row) \<Longrightarrow> rows_i rk result is = rows_i rk' result is"
proof (induction "is" arbitrary: result)
  case Nil
  then show ?case by simp
next
  case (Cons i "is")
  then show ?case by simp
qed

lemma rows_i_result:
  "distinct is \<Longrightarrow> \<forall>i\<in>set is. i < length result \<Longrightarrow> rows_i rk result is = Inr c \<Longrightarrow>
   length c = length result \<and> (\<forall>i\<in>set is. rk i (result ! i) = Inr (c ! i)) \<and>
   (\<forall>j<length result. j \<notin> set is \<longrightarrow> c ! j = result ! j)"
proof (induction "is" arbitrary: result)
  case Nil
  then show ?case by simp
next
  case (Cons i "is")
  from Cons.prems(3) obtain r where r: "rk i (result ! i) = Inr r"
    and rest: "rows_i rk (result[i := r]) is = Inr c"
    by (auto simp: bind_eq_Inr)
  from Cons.prems have d: "distinct is" "i \<notin> set is" "i < length result"
    and b: "\<forall>j\<in>set is. j < length (result[i := r])"
    by simp_all
  from Cons.IH [OF d(1) b rest]
  have len: "length c = length result"
    and rows: "\<forall>j\<in>set is. rk j (result[i := r] ! j) = Inr (c ! j)"
    and others: "\<forall>j<length result. j \<notin> set is \<longrightarrow> c ! j = result[i := r] ! j"
    by simp_all
  from others d have ci: "c ! i = r" by simp
  have "\<forall>j\<in>set (i # is). rk j (result ! j) = Inr (c ! j)"
  proof
    fix j assume "j \<in> set (i # is)"
    then consider "j = i" | "j \<in> set is" "j \<noteq> i" using d(2) by auto
    then show "rk j (result ! j) = Inr (c ! j)"
    proof cases
      case 1
      with r ci show ?thesis by simp
    next
      case 2
      with rows have "rk j (result[i := r] ! j) = Inr (c ! j)" by blast
      with 2 show ?thesis by (metis nth_list_update_neq)
    qed
  qed
  moreover have "\<forall>j<length result. j \<notin> set (i # is) \<longrightarrow> c ! j = result ! j"
    using others by auto
  ultimately show ?case using len by blast
qed

lemma rows_i_total:
  "distinct is \<Longrightarrow> \<forall>i\<in>set is. i < length result \<Longrightarrow> \<forall>i\<in>set is. rk i (result ! i) = Inr (f i) \<Longrightarrow>
   rows_i rk result is = Inr (map (\<lambda>i. if i \<in> set is then f i else result ! i) [0..<length result])"
proof (induction "is" arbitrary: result)
  case Nil
  then show ?case by (simp add: map_nth)
next
  case (Cons i "is")
  from Cons.prems have d: "distinct is" "i \<notin> set is" "i < length result"
    and r: "rk i (result ! i) = Inr (f i)"
    by simp_all
  have b: "\<forall>j\<in>set is. j < length (result[i := f i])"
    using Cons.prems by simp
  have rows: "\<forall>j\<in>set is. rk j (result[i := f i] ! j) = Inr (f j)"
    using Cons.prems d by (auto simp: nth_list_update)
  have "map (\<lambda>j. if j \<in> set is then f j else result[i := f i] ! j) [0..<length result] =
        map (\<lambda>j. if j \<in> set (i # is) then f j else result ! j) [0..<length result]"
    using d by (auto simp: nth_list_update)
  with Cons.IH [OF d(1) b rows] r show ?case by simp
qed

section \<open>The loops on integers\<close>

lemma map_upt_eq: "length r = p \<Longrightarrow> (\<And>j. j < p \<Longrightarrow> f j = r ! j) \<Longrightarrow> map f [0..<p] = r"
  by (auto intro: nth_equalityI)

lemma loop_j_int_from:
  "length r = p \<Longrightarrow> length bk = p \<Longrightarrow> q \<le> p \<Longrightarrow>
   loop_j (IntNum x) (map IntNum bk) (map IntNum r) [q..<p] =
     Inr (map IntNum (map (\<lambda>j. if q \<le> j then r ! j + x * bk ! j else r ! j) [0..<p]))"
proof (induction "p - q" arbitrary: q r)
  case 0
  then have q: "q = p" by simp
  have e: "map (\<lambda>j. if p \<le> j then r ! j + x * bk ! j else r ! j) [0..<p] = r"
    using 0 by (intro map_upt_eq) simp_all
  show ?case unfolding q e by simp
next
  case (Suc d)
  then have q: "q < p" by simp
  let ?v = "r ! q + x * bk ! q"
  have IH: "loop_j (IntNum x) (map IntNum bk) (map IntNum (r[q := ?v])) [Suc q..<p] =
     Inr (map IntNum (map (\<lambda>j. if Suc q \<le> j then r[q := ?v] ! j + x * bk ! j else r[q := ?v] ! j) [0..<p]))"
    using Suc.hyps(1) [of "Suc q" "r[q := ?v]"] Suc.hyps(2) Suc.prems by simp
  have eq: "map (\<lambda>j. if Suc q \<le> j then r[q := ?v] ! j + x * bk ! j else r[q := ?v] ! j) [0..<p] =
      map (\<lambda>j. if q \<le> j then r ! j + x * bk ! j else r ! j) [0..<p]"
  proof (rule map_cong [OF refl])
    fix j
    consider "j < q" | "j = q" | "q < j" by linarith
    then show "(if Suc q \<le> j then r[q := ?v] ! j + x * bk ! j else r[q := ?v] ! j) =
        (if q \<le> j then r ! j + x * bk ! j else r ! j)"
      using q Suc.prems by cases simp_all
  qed
  have split: "[q..<p] = q # [Suc q..<p]"
    using q by (rule upt_conv_Cons)
  have first: "loop_j (IntNum x) (map IntNum bk) (map IntNum r) (q # [Suc q..<p]) =
      loop_j (IntNum x) (map IntNum bk) (map IntNum (r[q := ?v])) [Suc q..<p]"
    using q Suc.prems by (simp add: map_update)
  show ?case
    unfolding split first IH eq by (rule refl)
qed

lemma loop_j_int:
  "length r = p \<Longrightarrow> length bk = p \<Longrightarrow>
   loop_j (IntNum x) (map IntNum bk) (map IntNum r) [0..<p] =
     Inr (map IntNum (map (\<lambda>j. r ! j + x * bk ! j) [0..<p]))"
  using loop_j_int_from [of r p bk 0 x] by simp

lemma row_k_int:
  "length r = p \<Longrightarrow> \<forall>k\<in>set ks. k < length ai \<and> k < length B \<and> length (B ! k) = p \<Longrightarrow>
   row_k skip (map IntNum ai) (map (map IntNum) B) p (map IntNum r) ks =
     Inr (map IntNum (map (\<lambda>j. r ! j + (\<Sum>k\<leftarrow>ks. ai ! k * B ! k ! j)) [0..<p]))"
proof (induction ks arbitrary: r)
  case Nil
  have "map (\<lambda>j. r ! j + (\<Sum>k\<leftarrow>[]. ai ! k * B ! k ! j)) [0..<p] = r"
    using Nil by (intro map_upt_eq) simp_all
  then show ?case by (simp del: map_map)
next
  case (Cons k ks)
  from Cons.prems have k: "k < length ai" "k < length B" "length (B ! k) = p"
    and ks: "\<forall>k\<in>set ks. k < length ai \<and> k < length B \<and> length (B ! k) = p"
    by simp_all
  let ?r' = "map (\<lambda>j. r ! j + ai ! k * B ! k ! j) [0..<p]"
  have len: "length ?r' = p" by simp
  have next_row: "map (\<lambda>j. ?r' ! j + (\<Sum>k\<leftarrow>ks. ai ! k * B ! k ! j)) [0..<p] =
      map (\<lambda>j. r ! j + (\<Sum>k\<leftarrow>k # ks. ai ! k * B ! k ! j)) [0..<p]"
    by simp
  show ?case
  proof (cases "skip \<and> ai ! k = 0")
    case True
    with Cons.IH [OF Cons.prems(1) ks] k show ?thesis by simp
  next
    case False
    have "loop_j (IntNum (ai ! k)) (map IntNum (B ! k)) (map IntNum r) [0..<p] = Inr (map IntNum ?r')"
      using loop_j_int [OF Cons.prems(1) k(3)] .
    with False Cons.IH [OF len ks] k next_row show ?thesis
      by auto
  qed
qed

lemma sum_list_upt: "(\<Sum>k\<leftarrow>[0..<n]. f k) = (\<Sum>k<n. f k)"
  by (simp add: interv_sum_list_conv_sum_set_nat atLeast0LessThan)

lemma product_int:
  assumes "length A = m" and "\<forall>row\<in>set A. length row = n"
    and "length B = n" and "\<forall>row\<in>set B. length row = p"
  shows "rows_i (\<lambda>i row. row_k skip (map (map IntNum) A ! i) (map (map IntNum) B) p row [0..<n])
           (replicate m (replicate p (IntNum 0))) [0..<m] =
         Inr (map (\<lambda>i. map (\<lambda>j. IntNum (\<Sum>k<n. A ! i ! k * B ! k ! j)) [0..<p]) [0..<m])"
proof -
  let ?f = "\<lambda>i. map (\<lambda>j. IntNum (\<Sum>k<n. A ! i ! k * B ! k ! j)) [0..<p]"
  let ?rk = "\<lambda>i row. row_k skip (map (map IntNum) A ! i) (map (map IntNum) B) p row [0..<n]"
  let ?zero = "replicate m (replicate p (IntNum 0))"
  have zero: "replicate p (IntNum 0) = map IntNum (replicate p 0)" by simp
  have row: "?rk i (replicate p (IntNum 0)) = Inr (?f i)" if "i < m" for i
  proof -
    have ks: "\<forall>k\<in>set [0..<n]. k < length (A ! i) \<and> k < length B \<and> length (B ! k) = p"
      using assms that by simp
    have "row_k skip (map IntNum (A ! i)) (map (map IntNum) B) p (map IntNum (replicate p 0)) [0..<n] =
        Inr (map IntNum (map (\<lambda>j. replicate p 0 ! j + (\<Sum>k\<leftarrow>[0..<n]. A ! i ! k * B ! k ! j)) [0..<p]))"
      by (rule row_k_int [OF _ ks]) simp
    moreover have "map IntNum (map (\<lambda>j. replicate p 0 ! j + (\<Sum>k\<leftarrow>[0..<n]. A ! i ! k * B ! k ! j)) [0..<p]) = ?f i"
      by (simp add: sum_list_upt)
    ultimately show ?thesis using that assms(1) by (simp del: replicate_0 add: zero [symmetric])
  qed
  have "rows_i ?rk ?zero [0..<m] =
      Inr (map (\<lambda>i. if i \<in> set [0..<m] then ?f i else ?zero ! i) [0..<length ?zero])"
    by (rule rows_i_total) (simp_all add: row)
  moreover have "map (\<lambda>i. if i \<in> set [0..<m] then ?f i else ?zero ! i) [0..<length ?zero] = map ?f [0..<m]"
    by simp
  ultimately show ?thesis by simp
qed

section \<open>The multiplier on valid arguments\<close>

lemma multiply_valid:
  assumes "validate_matrix left ''left'' = Inr a" and "validate_matrix right ''right'' = Inr b"
  shows "multiply_matrices left right =
    (if length (hd a) \<noteq> length b
     then Inl (ValueError (shape_message (length a) (length (hd a)) (length b) (length (hd b))))
     else rows_i (\<lambda>i row. row_k True (a ! i) b (length (hd b)) row [0..<length (hd a)])
            (replicate (length a) (replicate (length (hd b)) (IntNum 0))) [0..<length a])"
  using assms hd_validated [OF assms(1)] hd_validated [OF assms(2)]
  by (simp add: multiply_matrices_def loop_i_rows Let_def)

lemma multiply_naive_valid:
  assumes "validate_matrix left ''left'' = Inr a" and "validate_matrix right ''right'' = Inr b"
  shows "multiply_naive left right =
    (if length (hd a) \<noteq> length b
     then Inl (ValueError (shape_message (length a) (length (hd a)) (length b) (length (hd b))))
     else rows_i (\<lambda>i row. row_k False (a ! i) b (length (hd b)) row [0..<length (hd a)])
            (replicate (length a) (replicate (length (hd b)) (IntNum 0))) [0..<length a])"
  using assms hd_validated [OF assms(1)] hd_validated [OF assms(2)]
  by (simp add: multiply_naive_def loop_i_naive_rows Let_def)

lemma ensure_numbers_ints: "ensure_numbers (map PInt row) name = Inr (map IntNum row)"
  by (induction row) simp_all

lemma validate_rows_ints:
  "validate_rows (map (\<lambda>row. PList (map PInt row)) A) name acc = Inr (acc @ map (map IntNum) A)"
  by (induction A arbitrary: acc) (simp_all add: ensure_numbers_ints)

lemma validate_int_matrix:
  assumes "A \<noteq> []" and "0 < n" and "\<forall>row\<in>set A. length row = n"
  shows "validate_matrix (int_matrix A) name = Inr (map (map IntNum) A)"
proof -
  have "set (map length (map (map IntNum) A)) = {n}"
    using assms(1,3) by (cases A) auto
  with assms(1,2) show ?thesis
    by (simp add: validate_matrix_def int_matrix_def validate_rows_ints)
qed

lemma ints_of: "\<forall>x\<in>set row. is_int x \<Longrightarrow> map IntNum (map int_of row) = row"
proof (induction row)
  case Nil
  then show ?case by simp
next
  case (Cons x row)
  then show ?case by (cases x) simp_all
qed

lemma int_rows_of: "\<forall>row\<in>set a. \<forall>x\<in>set row. is_int x \<Longrightarrow> map (map IntNum) (map (map int_of) a) = a"
proof (induction a)
  case Nil
  then show ?case by simp
next
  case (Cons row a)
  then show ?case using ints_of [of row] by simp
qed

lemma int_product:
  assumes "validate_matrix left ''left'' = Inr a" and "validate_matrix right ''right'' = Inr b"
    and "\<forall>row\<in>set a. length row = length b" and "\<forall>row\<in>set b. length row = p"
    and "\<forall>row\<in>set a. \<forall>x\<in>set row. is_int x" and "\<forall>row\<in>set b. \<forall>x\<in>set row. is_int x"
  shows "rows_i (\<lambda>i row. row_k skip (a ! i) b (length (hd b)) row [0..<length (hd a)])
            (replicate (length a) (replicate (length (hd b)) (IntNum 0))) [0..<length a] =
         Inr (map (\<lambda>i. map (\<lambda>j. IntNum (\<Sum>k<length b. int_of (a ! i ! k) * int_of (b ! k ! j))) [0..<p])
                [0..<length a])"
proof -
  let ?A = "map (map int_of) a" and ?B = "map (map int_of) b"
  have a: "map (map IntNum) ?A = a" and b: "map (map IntNum) ?B = b"
    using assms(5,6) by (simp_all only: int_rows_of)
  from hd_validated [OF assms(1)] assms(3) have ha: "length (hd a) = length b" by simp
  from hd_validated [OF assms(2)] assms(4) have hb: "length (hd b) = p" by simp
  have "rows_i (\<lambda>i row. row_k skip (map (map IntNum) ?A ! i) (map (map IntNum) ?B) p row [0..<length b])
           (replicate (length a) (replicate p (IntNum 0))) [0..<length a] =
         Inr (map (\<lambda>i. map (\<lambda>j. IntNum (\<Sum>k<length b. ?A ! i ! k * ?B ! k ! j)) [0..<p]) [0..<length a])"
    by (rule product_int) (simp_all add: assms(3,4))
  moreover have "map (\<lambda>i. map (\<lambda>j. IntNum (\<Sum>k<length b. ?A ! i ! k * ?B ! k ! j)) [0..<p]) [0..<length a] =
      map (\<lambda>i. map (\<lambda>j. IntNum (\<Sum>k<length b. int_of (a ! i ! k) * int_of (b ! k ! j))) [0..<p]) [0..<length a]"
    using assms(3,4) by (auto intro!: sum.cong)
  ultimately show ?thesis
    unfolding a b ha hb by simp
qed

section \<open>The product of integer matrices\<close>

text \<open>
  C1. For integer matrices \<open>A\<close> of shape \<open>m\<close> by \<open>n\<close> and \<open>B\<close> of shape \<open>n\<close> by \<open>p\<close>, given as
  lists of lists with at least one row and one column, \<^verbatim>\<open>multiply_matrices\<close> returns the matrix
  of \<open>m\<close> rows and \<open>p\<close> columns whose entry at \<open>(i, j)\<close> is the sum over \<open>k\<close> of
  \<open>A[i][k] * B[k][j]\<close>.
\<close>

theorem product_of_int_matrices:
  assumes "0 < m" and "0 < n" and "0 < p"
    and "length A = m" and "\<forall>row\<in>set A. length row = n"
    and "length B = n" and "\<forall>row\<in>set B. length row = p"
  shows "multiply_matrices (int_matrix A) (int_matrix B) =
    Inr (map (\<lambda>i. map (\<lambda>j. IntNum (\<Sum>k<n. A ! i ! k * B ! k ! j)) [0..<p]) [0..<m])"
proof -
  from assms have ne: "A \<noteq> []" "B \<noteq> []" by auto
  have va: "validate_matrix (int_matrix A) ''left'' = Inr (map (map IntNum) A)"
    using validate_int_matrix [OF ne(1) assms(2,5)] .
  have vb: "validate_matrix (int_matrix B) ''right'' = Inr (map (map IntNum) B)"
    using validate_int_matrix [OF ne(2) assms(3,7)] .
  have ha: "length (hd (map (map IntNum) A)) = n"
    using ne(1) assms(5) by (cases A) simp_all
  have hb: "length (hd (map (map IntNum) B)) = p"
    using ne(2) assms(7) by (cases B) simp_all
  show ?thesis
    unfolding multiply_valid [OF va vb] ha hb
    using product_int [OF assms(4,5,6,7), of True] assms(4,6) by simp
qed

theorem product_of_int_matrices_witness:
  "(0::nat) < 2 \<and> length [[1, 2], [3, 4 :: int]] = 2 \<and> list_all (\<lambda>row. length row = 2) [[1, 2], [3, 4 :: int]] \<and>
   length [[5, 6], [7, 8 :: int]] = 2 \<and> list_all (\<lambda>row. length row = 2) [[5, 6], [7, 8 :: int]] \<and>
   multiply_matrices (int_matrix [[1, 2], [3, 4]]) (int_matrix [[5, 6], [7, 8]]) =
     Inr [[IntNum 19, IntNum 22], [IntNum 43, IntNum 50]]"
  using product_of_int_matrices [of 2 2 2 "[[1, 2], [3, 4]]" "[[5, 6], [7, 8]]"]
  by (simp add: upt_2 lessThan_Suc numeral_2_eq_2)

text \<open>
  C10. When both arguments are valid and compatible and all their elements are \<^verbatim>\<open>int\<close>s,
  every element of the result is an \<^verbatim>\<open>int\<close>, and it is the exact sum of the products, in
  unbounded integer arithmetic: no operation of the loops leaves the integers.
\<close>

theorem integer_arithmetic_exact:
  assumes "validate_matrix left ''left'' = Inr a" and "validate_matrix right ''right'' = Inr b"
    and "\<forall>row\<in>set a. length row = length b" and "\<forall>row\<in>set b. length row = p"
    and "\<forall>row\<in>set a. \<forall>x\<in>set row. is_int x" and "\<forall>row\<in>set b. \<forall>x\<in>set row. is_int x"
  shows "multiply_matrices left right =
    Inr (map (\<lambda>i. map (\<lambda>j. IntNum (\<Sum>k<length b. int_of (a ! i ! k) * int_of (b ! k ! j))) [0..<p])
           [0..<length a])"
proof -
  from hd_validated [OF assms(1)] assms(3) have "length (hd a) = length b" by simp
  then show ?thesis
    unfolding multiply_valid [OF assms(1,2)]
    using int_product [OF assms, of True] by simp
qed

theorem integer_arithmetic_exact_witness:
  "validate_matrix (PTuple [PList [PInt (2 ^ 53 + 1), PInt 3]]) ''left'' = Inr [[IntNum (2 ^ 53 + 1), IntNum 3]] \<and>
   validate_matrix (PList [PTuple [PInt 3], PTuple [PInt (10 ^ 30)]]) ''right'' = Inr [[IntNum 3], [IntNum (10 ^ 30)]] \<and>
   multiply_matrices (PTuple [PList [PInt (2 ^ 53 + 1), PInt 3]]) (PList [PTuple [PInt 3], PTuple [PInt (10 ^ 30)]]) =
     Inr [[IntNum 3000000000000027021597764222979]]"
proof -
  have l: "validate_matrix (PTuple [PList [PInt (2 ^ 53 + 1), PInt 3]]) ''left'' = Inr [[IntNum (2 ^ 53 + 1), IntNum 3]]"
    by (simp add: validate_matrix_def)
  have r: "validate_matrix (PList [PTuple [PInt 3], PTuple [PInt (10 ^ 30)]]) ''right'' = Inr [[IntNum 3], [IntNum (10 ^ 30)]]"
    by (simp add: validate_matrix_def)
  from integer_arithmetic_exact [OF l r, of 1] l r show ?thesis
    by (simp add: lessThan_Suc numeral_2_eq_2)
qed

section \<open>The zero test against the loops without it\<close>

lemma row_k_no_zero:
  "\<forall>k\<in>set ks. k < length a_i \<longrightarrow> \<not> eq_zero (a_i ! k) \<Longrightarrow>
   row_k True a_i b p r ks = row_k False a_i b p r ks"
proof (induction ks arbitrary: r)
  case Nil
  then show ?case by simp
next
  case (Cons k ks)
  then have IH: "row_k True a_i b p r' ks = row_k False a_i b p r' ks" for r'
    by simp
  show ?case
  proof (cases "k < length a_i")
    case True
    with Cons.prems have "\<not> eq_zero (a_i ! k)" by simp
    with True show ?thesis by (simp add: IH)
  next
    case False
    then show ?thesis by (simp add: py_index_def)
  qed
qed

lemma row_k_unused:
  "\<forall>k\<in>set ks. k < length a_i \<longrightarrow> \<not> eq_zero (a_i ! k) \<longrightarrow> py_index b' k = py_index b k \<Longrightarrow>
   row_k True a_i b' p r ks = row_k True a_i b p r ks"
proof (induction ks arbitrary: r)
  case Nil
  then show ?case by simp
next
  case (Cons k ks)
  then have IH: "row_k True a_i b' p r' ks = row_k True a_i b p r' ks" for r'
    by simp
  show ?case
  proof (cases "k < length a_i")
    case True
    show ?thesis
    proof (cases "eq_zero (a_i ! k)")
      case True
      with \<open>k < length a_i\<close> show ?thesis by (simp add: IH)
    next
      case False
      with \<open>k < length a_i\<close> Cons.prems have "py_index b' k = py_index b k" by simp
      with False \<open>k < length a_i\<close> show ?thesis by (simp add: IH)
    qed
  next
    case False
    then show ?thesis by (simp add: py_index_def)
  qed
qed

lemma validated_rows:
  assumes "validate_matrix m name = Inr rows"
  shows "\<forall>row\<in>set rows. length row = length (hd rows)"
proof -
  from validate_matrix_shape [OF assms] obtain c where "\<forall>r\<in>set rows. length r = c" by blast
  moreover from hd_validated [OF assms] have "hd rows \<in> set rows" by simp
  ultimately show ?thesis by metis
qed

text \<open>
  C2, as amended. For valid arguments whose elements are all \<^verbatim>\<open>int\<close>s, or whose left matrix
  has no element equal to zero, \<^verbatim>\<open>multiply_matrices\<close> returns exactly what the three loops
  without the zero test return (the same matrix, or the same error).
\<close>

theorem zero_skip_agrees:
  assumes "validate_matrix left ''left'' = Inr a" and "validate_matrix right ''right'' = Inr b"
    and "(\<forall>row\<in>set a. \<forall>x\<in>set row. is_int x) \<and> (\<forall>row\<in>set b. \<forall>x\<in>set row. is_int x) \<or>
         (\<forall>row\<in>set a. \<forall>x\<in>set row. \<not> eq_zero x)"
  shows "multiply_matrices left right = multiply_naive left right"
proof (cases "length (hd a) = length b")
  case False
  then show ?thesis
    by (simp add: multiply_valid [OF assms(1,2)] multiply_naive_valid [OF assms(1,2)])
next
  case True
  let ?zero = "replicate (length a) (replicate (length (hd b)) (IntNum 0))"
  let ?rk = "\<lambda>skip i row. row_k skip (a ! i) b (length (hd b)) row [0..<length (hd a)]"
  have "rows_i (?rk True) ?zero [0..<length a] = rows_i (?rk False) ?zero [0..<length a]"
    using assms(3)
  proof
    assume ints: "(\<forall>row\<in>set a. \<forall>x\<in>set row. is_int x) \<and> (\<forall>row\<in>set b. \<forall>x\<in>set row. is_int x)"
    from validated_rows [OF assms(1)] True have ra: "\<forall>row\<in>set a. length row = length b" by simp
    note rb = validated_rows [OF assms(2)]
    from ints have ia: "\<forall>row\<in>set a. \<forall>x\<in>set row. is_int x" and ib: "\<forall>row\<in>set b. \<forall>x\<in>set row. is_int x"
      by simp_all
    show ?thesis
      by (simp only: int_product [OF assms(1,2) ra rb ia ib])
  next
    assume nz: "\<forall>row\<in>set a. \<forall>x\<in>set row. \<not> eq_zero x"
    show ?thesis
    proof (rule rows_i_cong)
      fix i row
      assume "i \<in> set [0..<length a]"
      then have "a ! i \<in> set a" by simp
      with nz have "\<forall>k\<in>set [0..<length (hd a)]. k < length (a ! i) \<longrightarrow> \<not> eq_zero (a ! i ! k)"
        by simp
      then show "?rk True i row = ?rk False i row"
        by (rule row_k_no_zero)
    qed
  qed
  with True show ?thesis
    by (simp add: multiply_valid [OF assms(1,2)] multiply_naive_valid [OF assms(1,2)])
qed

theorem zero_skip_agrees_witness:
  "validate_matrix (PList [PList [PInt 0, PInt 2]]) ''left'' = Inr [[IntNum 0, IntNum 2]] \<and>
   validate_matrix (PList [PList [PInt 1], PList [PInt 3]]) ''right'' = Inr [[IntNum 1], [IntNum 3]] \<and>
   list_all (list_all is_int) [[IntNum 0, IntNum 2]] \<and> list_all (list_all is_int) [[IntNum 1], [IntNum 3]] \<and>
   multiply_naive (PList [PList [PInt 0, PInt 2]]) (PList [PList [PInt 1], PList [PInt 3]]) = Inr [[IntNum 6]] \<and>
   multiply_matrices (PList [PList [PInt 0, PInt 2]]) (PList [PList [PInt 1], PList [PInt 3]]) = Inr [[IntNum 6]]"
proof -
  have l: "validate_matrix (PList [PList [PInt 0, PInt 2]]) ''left'' = Inr [[IntNum 0, IntNum 2]]"
    by (simp add: validate_matrix_def)
  have r: "validate_matrix (PList [PList [PInt 1], PList [PInt 3]]) ''right'' = Inr [[IntNum 1], [IntNum 3]]"
    by (simp add: validate_matrix_def)
  have n: "multiply_naive (PList [PList [PInt 0, PInt 2]]) (PList [PList [PInt 1], PList [PInt 3]]) = Inr [[IntNum 6]]"
    by (simp add: multiply_naive_valid [OF l r] upt_2)
  from zero_skip_agrees [OF l r] l r n show ?thesis
    by simp
qed

text \<open>
  C2 as stated fails on floats: with a zero in the left matrix against a NaN in the right
  one, the skip leaves the initial \<open>0\<close> where the loops without the test produce NaN.
\<close>

theorem zero_skip_counterexample:
  "multiply_matrices (PList [PList [PFloat (FFin False 0 (- 1074))]]) (PList [PList [PFloat FNaN]]) =
     Inr [[IntNum 0]] \<and>
   multiply_naive (PList [PList [PFloat (FFin False 0 (- 1074))]]) (PList [PList [PFloat FNaN]]) =
     Inr [[FloatNum FNaN]] \<and>
   multiply_matrices (PList [PList [PFloat (FFin False 0 (- 1074))]]) (PList [PList [PFloat FNaN]]) \<noteq>
     multiply_naive (PList [PList [PFloat (FFin False 0 (- 1074))]]) (PList [PList [PFloat FNaN]])"
proof -
  have l: "validate_matrix (PList [PList [PFloat (FFin False 0 (- 1074))]]) ''left'' =
      Inr [[FloatNum (FFin False 0 (- 1074))]]"
    by (simp add: validate_matrix_def)
  have r: "validate_matrix (PList [PList [PFloat FNaN]]) ''right'' = Inr [[FloatNum FNaN]]"
    by (simp add: validate_matrix_def)
  have zero: "float_of_int 0 = Inr (FFin False 0 (- 1074))"
    by (simp add: float_of_int_def round_fin_def)
  show ?thesis
    by (simp add: multiply_valid [OF l r] multiply_naive_valid [OF l r] zero)
qed

section \<open>What the zero test leaves out\<close>

text \<open>
  C8. Where \<open>left[i][k]\<close> equals zero, row \<open>k\<close> of the right matrix is not used for row \<open>i\<close> of
  the result. For two valid right matrices of one shape: when they agree on every row \<open>k\<close>
  for which some \<open>left[i][k]\<close> is not zero, \<^verbatim>\<open>multiply_matrices\<close> has the same outcome on both;
  and when they agree on every row \<open>k\<close> with \<open>left[i][k]\<close> not zero, for one \<open>i\<close>, two results
  returned have the same row \<open>i\<close>. So a NaN in a skipped place contributes nothing, where the
  loops without the test would propagate it.
\<close>

theorem skipped_entries_unused:
  assumes "validate_matrix left ''left'' = Inr a"
    and "validate_matrix right ''right'' = Inr b" and "validate_matrix right' ''right'' = Inr b'"
    and "length b' = length b" and "length (hd b') = length (hd b)"
  shows "((\<forall>i<length a. \<forall>k<length b. \<not> eq_zero (a ! i ! k) \<longrightarrow> b' ! k = b ! k) \<longrightarrow>
          multiply_matrices left right' = multiply_matrices left right) \<and>
         (i < length a \<longrightarrow> (\<forall>k<length b. \<not> eq_zero (a ! i ! k) \<longrightarrow> b' ! k = b ! k) \<longrightarrow>
          multiply_matrices left right = Inr c \<longrightarrow> multiply_matrices left right' = Inr c' \<longrightarrow>
          c' ! i = c ! i)"
proof -
  let ?zero = "replicate (length a) (replicate (length (hd b)) (IntNum 0))"
  let ?p = "length (hd b)"
  let ?rk = "\<lambda>rows i row. row_k True (a ! i) rows ?p row [0..<length (hd a)]"
  note m = multiply_valid [OF assms(1,2)] and m' = multiply_valid [OF assms(1,3)]
  have row: "?rk b' i row = ?rk b i row"
    if "length (hd a) = length b" and "\<forall>k<length b. \<not> eq_zero (a ! i ! k) \<longrightarrow> b' ! k = b ! k"
    for i row
  proof (rule row_k_unused)
    show "\<forall>k\<in>set [0..<length (hd a)]. k < length (a ! i) \<longrightarrow> \<not> eq_zero (a ! i ! k) \<longrightarrow>
        py_index b' k = py_index b k"
      using that assms(4) by (simp add: py_index_def)
  qed
  have whole: "multiply_matrices left right' = multiply_matrices left right"
    if all: "\<forall>i<length a. \<forall>k<length b. \<not> eq_zero (a ! i ! k) \<longrightarrow> b' ! k = b ! k"
  proof (cases "length (hd a) = length b")
    case False
    then show ?thesis by (simp add: m m' assms(4,5))
  next
    case True
    have "rows_i (?rk b') ?zero [0..<length a] = rows_i (?rk b) ?zero [0..<length a]"
    proof (rule rows_i_cong)
      fix i row
      assume "i \<in> set [0..<length a]"
      with all have "\<forall>k<length b. \<not> eq_zero (a ! i ! k) \<longrightarrow> b' ! k = b ! k" by simp
      with True show "?rk b' i row = ?rk b i row" by (rule row)
    qed
    with True show ?thesis by (simp add: m m' assms(4,5))
  qed
  have one: "c' ! i = c ! i"
    if i: "i < length a" and k: "\<forall>k<length b. \<not> eq_zero (a ! i ! k) \<longrightarrow> b' ! k = b ! k"
      and c: "multiply_matrices left right = Inr c" and c': "multiply_matrices left right' = Inr c'"
  proof -
    from c have compat: "length (hd a) = length b"
      by (auto simp: m split: if_splits)
    with c have r: "rows_i (?rk b) ?zero [0..<length a] = Inr c"
      by (simp add: m)
    from c' compat have r': "rows_i (?rk b') ?zero [0..<length a] = Inr c'"
      by (simp add: m' assms(4,5))
    from rows_i_result [OF _ _ r] i have "?rk b i (?zero ! i) = Inr (c ! i)" by simp
    moreover from rows_i_result [OF _ _ r'] i have "?rk b' i (?zero ! i) = Inr (c' ! i)" by simp
    ultimately show ?thesis using row [OF compat k, of "?zero ! i"] by simp
  qed
  from whole one show ?thesis by blast
qed

theorem skipped_entries_unused_witness:
  "validate_matrix (PList [PList [PFloat (FFin False 0 (- 1074)), PInt 2]]) ''left'' =
     Inr [[FloatNum (FFin False 0 (- 1074)), IntNum 2]] \<and>
   validate_matrix (PList [PList [PFloat FNaN], PList [PInt 3]]) ''right'' = Inr [[FloatNum FNaN], [IntNum 3]] \<and>
   validate_matrix (PList [PList [PInt 1], PList [PInt 3]]) ''right'' = Inr [[IntNum 1], [IntNum 3]] \<and>
   eq_zero (FloatNum (FFin False 0 (- 1074))) \<and>
   multiply_matrices (PList [PList [PFloat (FFin False 0 (- 1074)), PInt 2]]) (PList [PList [PInt 1], PList [PInt 3]]) =
     Inr [[IntNum 6]] \<and>
   multiply_matrices (PList [PList [PFloat (FFin False 0 (- 1074)), PInt 2]]) (PList [PList [PFloat FNaN], PList [PInt 3]]) =
     Inr [[IntNum 6]] \<and>
   multiply_naive (PList [PList [PFloat (FFin False 0 (- 1074)), PInt 2]]) (PList [PList [PFloat FNaN], PList [PInt 3]]) =
     Inr [[FloatNum FNaN]]"
proof -
  let ?left = "PList [PList [PFloat (FFin False 0 (- 1074)), PInt 2]]"
  have l: "validate_matrix ?left ''left'' = Inr [[FloatNum (FFin False 0 (- 1074)), IntNum 2]]"
    by (simp add: validate_matrix_def)
  have r: "validate_matrix (PList [PList [PFloat FNaN], PList [PInt 3]]) ''right'' = Inr [[FloatNum FNaN], [IntNum 3]]"
    by (simp add: validate_matrix_def)
  have r': "validate_matrix (PList [PList [PInt 1], PList [PInt 3]]) ''right'' = Inr [[IntNum 1], [IntNum 3]]"
    by (simp add: validate_matrix_def)
  have p: "multiply_matrices ?left (PList [PList [PInt 1], PList [PInt 3]]) = Inr [[IntNum 6]]"
    by (simp add: multiply_valid [OF l r'] upt_2)
  have zero: "float_of_int 0 = Inr (FFin False 0 (- 1074))"
    by (simp add: float_of_int_def round_fin_def)
  have bits: "bit_length 6 = 3"
    by (simp add: bit_length.simps)
  have six: "float_of_int 6 = Inr (FFin False 6755399441055744 (- 50))"
    by (simp add: float_of_int_def round_fin_def bits Let_def)
  have n: "multiply_naive ?left (PList [PList [PFloat FNaN], PList [PInt 3]]) = Inr [[FloatNum FNaN]]"
    by (simp add: multiply_naive_valid [OF l r] upt_2 zero six)
  have "\<forall>i<length [[FloatNum (FFin False 0 (- 1074)), IntNum 2]]. \<forall>k<length [[FloatNum FNaN], [IntNum 3]].
      \<not> eq_zero ([[FloatNum (FFin False 0 (- 1074)), IntNum 2]] ! i ! k) \<longrightarrow>
      [[IntNum 1], [IntNum 3]] ! k = [[FloatNum FNaN], [IntNum 3]] ! k"
    by (simp add: less_Suc_eq numeral_2_eq_2)
  with skipped_entries_unused [OF l r r', of 0 "[[IntNum 6]]" "[[IntNum 6]]"] p
  have "multiply_matrices ?left (PList [PList [PFloat FNaN], PList [PInt 3]]) = Inr [[IntNum 6]]"
    by simp
  with l r r' p n show ?thesis by simp
qed

end
